theory Spec2Isabelle
  imports Main "HOL-Library.Sublist"
begin

section \<open>SyncthingSnitch: one poll-filter-notify pass over the Syncthing event log\<close>

text \<open>
  The program (\<^verbatim>\<open>SyncthingSnitch.py\<close>) reads a cursor \<^verbatim>\<open>last_id\<close> from a file, fetches the
  disk events newer than it with one HTTP request, sends a Telegram message for every
  event that passes the filters of \<^verbatim>\<open>parse_event\<close>, and writes the cursor back.

  The embedding threads a \<open>world\<close> through the functions: the trace of the effects
  performed so far (log lines, sleeps, HTTP requests, Telegram calls, file writes), the
  number of \<^verbatim>\<open>bot.sendMessage\<close> calls made, and the state of the cursor file. What the
  outside answers (HTTP response, outcome of each Telegram call, outcome of the file
  write, \<^verbatim>\<open>mimetypes.guess_type\<close>) is a parameter, the record \<open>env\<close>.
\<close>

subsection \<open>Data\<close>

text \<open>
  An event is the JSON object of \<^verbatim>\<open>/rest/events/disk\<close>: \<^verbatim>\<open>event["id"]\<close>,
  \<^verbatim>\<open>event["type"]\<close> and, under \<^verbatim>\<open>event["data"]\<close>, \<^verbatim>\<open>action\<close>, \<^verbatim>\<open>type\<close>, \<^verbatim>\<open>label\<close>
  and \<^verbatim>\<open>path\<close>, which both event types of that endpoint (\<^verbatim>\<open>LocalChangeDetected\<close>,
  \<^verbatim>\<open>RemoteChangeDetected\<close>) carry. Python integers are unbounded, hence \<open>int\<close>.
\<close>

record event_data =
  d_action :: string
  d_type :: string
  d_label :: string
  d_path :: string

record event =
  e_id :: int
  e_type :: string
  e_data :: event_data

text \<open>
  The command line (\<^verbatim>\<open>argparse\<close>): \<^verbatim>\<open>--label\<close> has \<^verbatim>\<open>action="append"\<close> and no default,
  so \<^verbatim>\<open>args.label\<close> is \<^verbatim>\<open>None\<close> or a list. \<^verbatim>\<open>--timeout\<close> is a number of seconds, the
  argument of \<^verbatim>\<open>time.sleep\<close>, which takes a non-negative duration: a \<open>nat\<close>.
\<close>

record args =
  telegram_chat_id :: string
  host :: string
  auth :: string
  timeout :: nat
  ssl :: bool
  label :: "string list option"
  filter_movies :: bool
  id_file_location :: string
  verbose :: nat

text \<open>The lines written through \<^verbatim>\<open>debug_msg\<close> and \<^verbatim>\<open>logger.info\<close>, one constructor per
  format string of the source, with the values it formats.\<close>

datatype logline =
    Arguments
  | Found_last_id int string
  | Used_url string
  | Error_while_fetching
  | Error_fetching_exiting
  | Event_dump event
  | Already_parsed int
  | Ignoring_action int string
  | Filtering_event_type int
  | Filtering_non_file int
  | Label_not_in_list int string "string list"
  | Mimetype_not_detectable int string
  | Not_video int string
  | Contains_sample int string
  | Telegram_error
  | Sending_succeed int string
  | Sending_failed_completely
  | Error_while_writing

text \<open>The message of \<^verbatim>\<open>send_event\<close>: the fixed template filled with the label and the
  base name of the path.\<close>

datatype msg_text = Msg_text string string

datatype effect =
    Debug logline
  | Info logline
  | Sleep nat
  | HttpGet string string
  | SendMessage string msg_text bool
  | FileWrite string string

text \<open>The cursor file: absent, present but failing to open or read (\<^verbatim>\<open>OSError\<close>), or
  present with a content.\<close>

datatype id_file = Absent | Unreadable | Content string

datatype http_result = RequestException | Response nat "event list"

datatype write_result = Written | OpenFailed | WriteFailed

datatype error = ValueError | OSError

datatype status = Exit nat | Uncaught error

record env =
  guess_type :: "string \<Rightarrow> string option"
  http_get :: "string \<Rightarrow> string \<Rightarrow> http_result"
  sendMessage :: "nat \<Rightarrow> string \<Rightarrow> msg_text \<Rightarrow> bool"
  file_write :: write_result

record world =
  trace :: "effect list"
  calls :: nat
  disk :: id_file

subsection \<open>Python's \<^verbatim>\<open>str\<close> and \<^verbatim>\<open>int\<close> on decimal integers\<close>

definition is_digit :: "char \<Rightarrow> bool" where
  "is_digit c = (48 \<le> (of_char c :: nat) \<and> (of_char c :: nat) \<le> 57)"

definition digit_val :: "char \<Rightarrow> nat" where
  "digit_val c = of_char c - 48"

definition digit_char :: "nat \<Rightarrow> char" where
  "digit_char d = char_of (48 + d)"

function str_nat :: "nat \<Rightarrow> string" where
  "str_nat n = (if n < 10 then [digit_char n] else str_nat (n div 10) @ [digit_char (n mod 10)])"
  by pat_completeness auto
termination
  by (relation "measure (\<lambda>n. n)") auto

declare str_nat.simps [simp del]

definition str_int :: "int \<Rightarrow> string" where
  "str_int i = (if i < 0 then CHR ''-'' # str_nat (nat (- i)) else str_nat (nat i))"

text \<open>\<^verbatim>\<open>int(s)\<close> strips white space, takes one optional sign, then decimal digits in
  which single underscores may stand between two digits; anything else is a
  \<^verbatim>\<open>ValueError\<close> (here \<open>None\<close>). The content of the cursor file is taken as ASCII text,
  which is what the program writes; on such a string \<^verbatim>\<open>int\<close> strips the characters 9 to 13
  and 32 and no others. Recent Python versions refuse to convert more than 4300 digits (in
  both directions); cursors and event ids are taken to stay below that limit.\<close>

definition is_space :: "char \<Rightarrow> bool" where
  "is_space c = (let n = (of_char c :: nat) in (9 \<le> n \<and> n \<le> 13) \<or> n = 32)"

definition strip :: "string \<Rightarrow> string" where
  "strip s = rev (dropWhile is_space (rev (dropWhile is_space s)))"

fun digits :: "bool \<Rightarrow> nat \<Rightarrow> string \<Rightarrow> nat option" where
  "digits after_digit a [] = (if after_digit then Some a else None)"
| "digits after_digit a (c # cs) =
     (if is_digit c then digits True (10 * a + digit_val c) cs
      else if c = CHR ''_'' \<and> after_digit then digits False a cs
      else None)"

definition py_int :: "string \<Rightarrow> int option" where
  "py_int s =
     (case strip s of
        [] \<Rightarrow> None
      | c # cs \<Rightarrow>
          if c = CHR ''-'' then map_option (\<lambda>n. - int n) (digits False 0 cs)
          else if c = CHR ''+'' then map_option int (digits False 0 cs)
          else map_option int (digits False 0 (c # cs)))"

subsection \<open>Logging\<close>

definition emit :: "effect \<Rightarrow> world \<Rightarrow> world" where
  "emit x w = w\<lparr>trace := trace w @ [x]\<rparr>"

definition debug_msg :: "logline \<Rightarrow> args \<Rightarrow> world \<Rightarrow> world" where
  "debug_msg msg a w = (if verbose a > 0 then emit (Debug msg) w else w)"

subsection \<open>\<^verbatim>\<open>fetch_events\<close>\<close>

definition url_of :: "args \<Rightarrow> int \<Rightarrow> string" where
  "url_of a last_id =
     (if ssl a then ''https://'' else ''http://'') @ host a @ ''/rest/events/disk''
       @ ''?since='' @ str_int last_id @ ''&timeout='' @ str_nat (timeout a)"

definition fetch_events :: "env \<Rightarrow> args \<Rightarrow> int \<Rightarrow> world \<Rightarrow> event list option \<times> world" where
  "fetch_events E a last_id w =
     (let url = url_of a last_id;
          w1 = debug_msg (Used_url url) a w;
          w2 = emit (HttpGet url (auth a)) w1
      in case http_get E url (auth a) of
           Response code body \<Rightarrow>
             if code = 200 then (Some body, w2)
             else (None, emit (Sleep (timeout a)) (emit (Info Error_while_fetching) w2))
         | RequestException \<Rightarrow>
             (None, emit (Sleep (timeout a)) (emit (Info Error_while_fetching) w2)))"

subsection \<open>\<^verbatim>\<open>send_event\<close>\<close>

text \<open>\<^verbatim>\<open>os.path.basename\<close>: what follows the last slash.\<close>

definition basename :: "string \<Rightarrow> string" where
  "basename p = rev (takeWhile (\<lambda>c. c \<noteq> CHR ''/'') (rev p))"

text \<open>The loop \<^verbatim>\<open>for _ in range(3)\<close> with its \<^verbatim>\<open>else\<close> branch, by the number of rounds
  left: a call that raises \<^verbatim>\<open>TelegramError\<close> logs, sleeps and continues; a call that
  returns logs the success and breaks; the \<^verbatim>\<open>else\<close> branch runs when the rounds are
  used up.\<close>

fun send_loop :: "nat \<Rightarrow> event \<Rightarrow> msg_text \<Rightarrow> env \<Rightarrow> args \<Rightarrow> world \<Rightarrow> world" where
  "send_loop 0 ev m E a w = debug_msg Sending_failed_completely a w"
| "send_loop (Suc k) ev m E a w =
     (let ok = sendMessage E (calls w) (telegram_chat_id a) m;
          w1 = (emit (SendMessage (telegram_chat_id a) m ok) w)\<lparr>calls := calls w + 1\<rparr>
      in if ok then emit (Info (Sending_succeed (e_id ev) (d_path (e_data ev)))) w1
         else send_loop k ev m E a (emit (Sleep (timeout a)) (debug_msg Telegram_error a w1)))"

definition send_event :: "event \<Rightarrow> env \<Rightarrow> args \<Rightarrow> world \<Rightarrow> world" where
  "send_event ev E a w =
     send_loop 3 ev (Msg_text (d_label (e_data ev)) (basename (d_path (e_data ev)))) E a w"

subsection \<open>\<^verbatim>\<open>parse_event\<close>\<close>

text \<open>Python's \<^verbatim>\<open>x in s\<close> on strings: \<open>x\<close> occurs in \<open>s\<close> as a contiguous substring.\<close>

fun contains :: "string \<Rightarrow> string \<Rightarrow> bool" where
  "contains x [] = (x = [])"
| "contains x (c # cs) = (prefix x (c # cs) \<or> contains x cs)"

definition parse_event :: "event \<Rightarrow> env \<Rightarrow> args \<Rightarrow> world \<Rightarrow> int \<times> world" where
  "parse_event ev E a w =
     (if d_action (e_data ev) \<noteq> ''modified'' then
        (e_id ev, debug_msg (Ignoring_action (e_id ev) (d_action (e_data ev))) a w)
      else if e_type ev \<noteq> ''LocalChangeDetected'' then
        (e_id ev, debug_msg (Filtering_event_type (e_id ev)) a w)
      else if d_type (e_data ev) \<noteq> ''file'' then
        (e_id ev, debug_msg (Filtering_non_file (e_id ev)) a w)
      else if (case label a of None \<Rightarrow> False | Some ls \<Rightarrow> d_label (e_data ev) \<notin> set ls) then
        (e_id ev, debug_msg (Label_not_in_list (e_id ev) (d_label (e_data ev)) (the (label a))) a w)
      else if filter_movies a \<and> guess_type E (d_path (e_data ev)) = None then
        (e_id ev, debug_msg (Mimetype_not_detectable (e_id ev) (d_type (e_data ev))) a w)
      else if filter_movies a \<and> \<not> prefix ''video'' (the (guess_type E (d_path (e_data ev)))) then
        (e_id ev, debug_msg (Not_video (e_id ev) (d_type (e_data ev))) a w)
      else if contains ''sample'' (d_path (e_data ev)) \<or> contains ''Sample'' (d_path (e_data ev)) then
        (e_id ev, debug_msg (Contains_sample (e_id ev) (d_path (e_data ev))) a w)
      else (e_id ev, send_event ev E a w))"

subsection \<open>\<^verbatim>\<open>main\<close>\<close>

text \<open>Lines 151 to 158: the cursor is 0 unless the file exists; then it is opened, read
  and converted with \<^verbatim>\<open>int\<close>, outside any \<^verbatim>\<open>try\<close>.\<close>

definition load_last_id :: "args \<Rightarrow> world \<Rightarrow> error + int \<times> world" where
  "load_last_id a w =
     (case disk w of
        Absent \<Rightarrow> Inr (0, w)
      | Unreadable \<Rightarrow> Inl OSError
      | Content s \<Rightarrow>
          (case py_int s of
             None \<Rightarrow> Inl ValueError
           | Some n \<Rightarrow> Inr (n, debug_msg (Found_last_id n (id_file_location a)) a w)))"

text \<open>Lines 166 to 173: the loop over the fetched events.\<close>

fun process_events :: "event list \<Rightarrow> int \<Rightarrow> env \<Rightarrow> args \<Rightarrow> world \<Rightarrow> int \<times> world" where
  "process_events [] last_id E a w = (last_id, w)"
| "process_events (ev # evs) last_id E a w =
     (let w1 = debug_msg (Event_dump ev) a w
      in if e_id ev \<le> last_id then
           process_events evs last_id E a (debug_msg (Already_parsed (e_id ev)) a w1)
         else
           (case parse_event ev E a w1 of (i, w2) \<Rightarrow> process_events evs i E a w2))"

text \<open>Lines 175 to 180: the write, inside \<^verbatim>\<open>try\<close> ... \<^verbatim>\<open>except BaseException\<close>. Opening
  with mode \<^verbatim>\<open>"w"\<close> truncates the file, so a write that fails after the open leaves it
  empty; an open that fails leaves it as it was.\<close>

definition save_last_id :: "int \<Rightarrow> env \<Rightarrow> args \<Rightarrow> world \<Rightarrow> world" where
  "save_last_id last_id E a w =
     (let w1 = emit (FileWrite (id_file_location a) (str_int last_id)) w
      in case file_write E of
           Written \<Rightarrow> w1\<lparr>disk := Content (str_int last_id)\<rparr>
         | OpenFailed \<Rightarrow> debug_msg Error_while_writing a w1
         | WriteFailed \<Rightarrow> debug_msg Error_while_writing a (w1\<lparr>disk := Content []\<rparr>))"

definition main :: "env \<Rightarrow> args \<Rightarrow> world \<Rightarrow> status \<times> world" where
  "main E a w =
     (let w0 = debug_msg Arguments a w
      in case load_last_id a w0 of
           Inl err \<Rightarrow> (Uncaught err, w0)
         | Inr (last_id, w1) \<Rightarrow>
             (case fetch_events E a last_id w1 of
                (None, w2) \<Rightarrow> (Exit 1, debug_msg Error_fetching_exiting a w2)
              | (Some events, w2) \<Rightarrow>
                  (case process_events events last_id E a w2 of
                     (last_id', w3) \<Rightarrow> (Exit 0, save_last_id last_id' E a w3))))"

subsection \<open>Observing a run\<close>

text \<open>The Telegram calls, the file writes and the HTTP requests of a trace; the lines \<^verbatim>\<open>debug_msg\<close> adds
  (none unless \<^verbatim>\<open>args.verbose > 0\<close>); what the loop of \<^verbatim>\<open>main\<close> logs for events it
  skips; the effects of one failed round of the loop of \<^verbatim>\<open>send_event\<close>; the message text
  of an event; and the cursor that lines 151 to 158 of \<^verbatim>\<open>main\<close> produce, if they do.\<close>

fun is_attempt :: "effect \<Rightarrow> bool" where
  "is_attempt (SendMessage c m ok) = True"
| "is_attempt _ = False"

fun is_write :: "effect \<Rightarrow> bool" where
  "is_write (FileWrite p s) = True"
| "is_write _ = False"

fun is_request :: "effect \<Rightarrow> bool" where
  "is_request (HttpGet url key) = True"
| "is_request _ = False"

definition dbg :: "args \<Rightarrow> logline \<Rightarrow> effect list" where
  "dbg a l = (if verbose a > 0 then [Debug l] else [])"

definition skipped_trace :: "args \<Rightarrow> event list \<Rightarrow> effect list" where
  "skipped_trace a evs = concat (map (\<lambda>ev. dbg a (Event_dump ev) @ dbg a (Already_parsed (e_id ev))) evs)"

definition failed_round :: "args \<Rightarrow> msg_text \<Rightarrow> effect list" where
  "failed_round a m = SendMessage (telegram_chat_id a) m False # dbg a Telegram_error @ [Sleep (timeout a)]"

definition msg_of :: "event \<Rightarrow> msg_text" where
  "msg_of ev = Msg_text (d_label (e_data ev)) (basename (d_path (e_data ev)))"

definition loaded :: "args \<Rightarrow> world \<Rightarrow> int option" where
  "loaded a w = (case load_last_id a w of Inl err \<Rightarrow> None | Inr (n, w') \<Rightarrow> Some n)"

subsection \<open>The filter rules as the specification numbers them\<close>

text \<open>The six rules of the event filter in the words of the specification, each as a
  predicate that holds when the event passes the rule; their outcomes in the order of the
  specification; the number of the first rule that fails; \<open>shouldNotify\<close>, which holds
  when every rule passes; and the line \<^verbatim>\<open>parse_event\<close> logs for each rule number.\<close>

definition rule_action :: "event \<Rightarrow> bool" where
  "rule_action ev = (d_action (e_data ev) = ''modified'')"

definition rule_event_type :: "event \<Rightarrow> bool" where
  "rule_event_type ev = (e_type ev = ''LocalChangeDetected'')"

definition rule_file :: "event \<Rightarrow> bool" where
  "rule_file ev = (d_type (e_data ev) = ''file'')"

definition rule_label :: "event \<Rightarrow> args \<Rightarrow> bool" where
  "rule_label ev a = (case label a of None \<Rightarrow> True | Some ls \<Rightarrow> d_label (e_data ev) \<in> set ls)"

definition rule_movies :: "event \<Rightarrow> env \<Rightarrow> args \<Rightarrow> bool" where
  "rule_movies ev E a =
     (if filter_movies a
      then (case guess_type E (d_path (e_data ev)) of None \<Rightarrow> False | Some t \<Rightarrow> prefix ''video'' t)
      else True)"

definition rule_sample :: "event \<Rightarrow> bool" where
  "rule_sample ev =
     (\<not> contains ''sample'' (d_path (e_data ev)) \<and> \<not> contains ''Sample'' (d_path (e_data ev)))"

definition rule_outcomes :: "event \<Rightarrow> env \<Rightarrow> args \<Rightarrow> bool list" where
  "rule_outcomes ev E a =
     [rule_action ev, rule_event_type ev, rule_file ev, rule_label ev a, rule_movies ev E a,
      rule_sample ev]"

fun first_failing :: "nat \<Rightarrow> bool list \<Rightarrow> nat option" where
  "first_failing k [] = None"
| "first_failing k (b # bs) = (if b then first_failing (Suc k) bs else Some k)"

definition shouldNotify :: "event \<Rightarrow> env \<Rightarrow> args \<Rightarrow> bool" where
  "shouldNotify ev E a = list_all id (rule_outcomes ev E a)"

definition skip_line :: "nat \<Rightarrow> event \<Rightarrow> env \<Rightarrow> args \<Rightarrow> logline" where
  "skip_line k ev E a =
     (if k = 1 then Ignoring_action (e_id ev) (d_action (e_data ev))
      else if k = 2 then Filtering_event_type (e_id ev)
      else if k = 3 then Filtering_non_file (e_id ev)
      else if k = 4 then Label_not_in_list (e_id ev) (d_label (e_data ev)) (the (label a))
      else if k = 5 then
        (if guess_type E (d_path (e_data ev)) = None
         then Mimetype_not_detectable (e_id ev) (d_type (e_data ev))
         else Not_video (e_id ev) (d_type (e_data ev)))
      else Contains_sample (e_id ev) (d_path (e_data ev)))"

subsection \<open>The scenarios of the specification\<close>

text \<open>Concrete inputs after section 8 of the specification: an event of folder
  \<^verbatim>\<open>movies\<close>, the command line without label filter and with \<^verbatim>\<open>--filter_movies\<close>, a
  \<^verbatim>\<open>guess_type\<close> that knows \<^verbatim>\<open>.mkv\<close>, an environment with a fixed HTTP answer and given
  Telegram outcomes, and a fresh world around a cursor file.\<close>

definition sc_event :: "int \<Rightarrow> string \<Rightarrow> string \<Rightarrow> string \<Rightarrow> event" where
  "sc_event i ty act p =
     \<lparr>e_id = i, e_type = ty,
      e_data = \<lparr>d_action = act, d_type = ''file'', d_label = ''movies'', d_path = p\<rparr>\<rparr>"

definition sc_args :: args where
  "sc_args = \<lparr>telegram_chat_id = ''42'', host = ''localhost'', auth = ''key'', timeout = 10,
     ssl = False, label = None, filter_movies = True,
     id_file_location = ''./SyncthingSnitch.id'', verbose = 0\<rparr>"

definition sc_guess :: "string \<Rightarrow> string option" where
  "sc_guess p = (if suffix ''.mkv'' p then Some ''video/x-matroska'' else None)"

definition sc_env :: "http_result \<Rightarrow> (nat \<Rightarrow> bool) \<Rightarrow> env" where
  "sc_env r tg = \<lparr>guess_type = sc_guess, http_get = (\<lambda>url key. r),
     sendMessage = (\<lambda>k chat m. tg k), file_write = Written\<rparr>"

definition sc_world :: "id_file \<Rightarrow> world" where
  "sc_world f = \<lparr>trace = [], calls = 0, disk = f\<rparr>"

section \<open>Auxiliary facts\<close>

lemma digit_val_char: "d < 10 \<Longrightarrow> digit_val (digit_char d) = d"
  by (simp add: digit_val_def digit_char_def)

lemma is_digit_char: "d < 10 \<Longrightarrow> is_digit (digit_char d)"
  by (simp add: is_digit_def digit_char_def)

lemma not_space_digit: "is_digit c \<Longrightarrow> \<not> is_space c"
  by (auto simp: is_digit_def is_space_def Let_def)

lemma digits_snoc:
  "digits b a cs = Some v \<Longrightarrow> d < 10 \<Longrightarrow> digits b a (cs @ [digit_char d]) = Some (10 * v + d)"
  by (induction b a cs rule: digits.induct)
     (auto simp: is_digit_char digit_val_char split: if_splits)

lemma digits_str_nat: "digits False 0 (str_nat n) = Some n"
proof (induction n rule: str_nat.induct)
  case (1 n)
  show ?case
  proof (cases "n < 10")
    case True
    then show ?thesis
      by (subst str_nat.simps) (simp add: is_digit_char digit_val_char)
  next
    case False
    with 1 have "digits False 0 (str_nat (n div 10)) = Some (n div 10)" by simp
    then have "digits False 0 (str_nat (n div 10) @ [digit_char (n mod 10)]) = Some (10 * (n div 10) + n mod 10)"
      by (rule digits_snoc) simp
    with False show ?thesis
      by (subst str_nat.simps) simp
  qed
qed

lemma str_nat_digits: "c \<in> set (str_nat n) \<Longrightarrow> is_digit c"
proof (induction n rule: str_nat.induct)
  case (1 n)
  then show ?case
    by (subst (asm) (2) str_nat.simps) (auto simp: is_digit_char split: if_splits)
qed

lemma str_nat_not_Nil: "str_nat n \<noteq> []"
  by (subst str_nat.simps) simp

lemma dropWhile_hd: "xs \<noteq> [] \<Longrightarrow> \<not> P (hd xs) \<Longrightarrow> dropWhile P xs = xs"
  by (cases xs) auto

lemma strip_id:
  assumes "s \<noteq> []" "\<not> is_space (hd s)" "\<not> is_space (last s)"
  shows "strip s = s"
proof -
  have "dropWhile is_space s = s" using assms by (simp add: dropWhile_hd)
  moreover have "dropWhile is_space (rev s) = rev s"
    using assms by (intro dropWhile_hd) (simp_all add: hd_rev)
  ultimately show ?thesis by (simp add: strip_def)
qed

lemma strip_str_nat: "strip (str_nat n) = str_nat n"
  using str_nat_not_Nil[of n] str_nat_digits[of _ n]
  by (intro strip_id) (auto simp: not_space_digit)

lemma hd_str_nat_not_sign: "hd (str_nat n) \<noteq> CHR ''-'' \<and> hd (str_nat n) \<noteq> CHR ''+''"
proof -
  have "hd (str_nat n) \<in> set (str_nat n)" using str_nat_not_Nil by simp
  then have "is_digit (hd (str_nat n))" by (rule str_nat_digits)
  then show ?thesis by (auto simp: is_digit_def)
qed

lemma strip_minus_str_nat: "strip (CHR ''-'' # str_nat n) = CHR ''-'' # str_nat n"
proof (rule strip_id)
  show "\<not> is_space (last (CHR ''-'' # str_nat n))"
    using str_nat_not_Nil[of n] str_nat_digits[of "last (str_nat n)" n]
    by (simp add: not_space_digit)
qed (simp_all add: is_space_def)

lemma py_int_str_int: "py_int (str_int i) = Some i"
proof (cases "i < 0")
  case True
  then show ?thesis
    by (simp add: py_int_def str_int_def strip_minus_str_nat digits_str_nat)
next
  case False
  obtain c cs where cs: "str_nat (nat i) = c # cs"
    using str_nat_not_Nil[of "nat i"] by (cases "str_nat (nat i)") auto
  with hd_str_nat_not_sign[of "nat i"] have "c \<noteq> CHR ''-''" "c \<noteq> CHR ''+''" by auto
  moreover have "digits False 0 (c # cs) = Some (nat i)"
    using digits_str_nat[of "nat i"] cs by simp
  ultimately show ?thesis using False cs strip_str_nat[of "nat i"]
    by (simp add: py_int_def str_int_def del: digits.simps)
qed

lemma emit_simps [simp]:
  "trace (emit x w) = trace w @ [x]" "calls (emit x w) = calls w" "disk (emit x w) = disk w"
  by (simp_all add: emit_def)

lemma debug_msg_simps [simp]:
  "trace (debug_msg l a w) = trace w @ dbg a l" "calls (debug_msg l a w) = calls w"
  "disk (debug_msg l a w) = disk w"
  by (simp_all add: debug_msg_def dbg_def)

lemma world_eqI: "trace w = trace w' \<Longrightarrow> calls w = calls w' \<Longrightarrow> disk w = disk w' \<Longrightarrow> (w::world) = w'"
  by simp

lemma is_attempt_dbg [simp]: "filter is_attempt (dbg a l) = []"
  by (simp add: dbg_def)

lemma is_write_dbg [simp]: "filter is_write (dbg a l) = []"
  by (simp add: dbg_def)

lemma is_attempt_skipped [simp]: "filter is_attempt (skipped_trace a evs) = []"
  by (induction evs) (simp_all add: skipped_trace_def)

lemma send_loop_all_fail:
  "(\<forall>j<n. \<not> sendMessage E (calls w + j) (telegram_chat_id a) m) \<Longrightarrow>
   send_loop n ev m E a w =
     w\<lparr>trace := trace w @ concat (replicate n (failed_round a m)) @ dbg a Sending_failed_completely,
       calls := calls w + n\<rparr>"
proof (induction n arbitrary: w)
  case 0
  show ?case by (intro world_eqI) simp_all
next
  case (Suc n)
  let ?w' = "emit (Sleep (timeout a)) (debug_msg Telegram_error a
     ((emit (SendMessage (telegram_chat_id a) m False) w)\<lparr>calls := calls w + 1\<rparr>))"
  from Suc.prems have first: "\<not> sendMessage E (calls w) (telegram_chat_id a) m"
    by (metis add.right_neutral zero_less_Suc)
  have "\<forall>j<n. \<not> sendMessage E (calls ?w' + j) (telegram_chat_id a) m"
  proof (intro allI impI)
    fix j assume "j < n"
    then have "Suc j < Suc n" by simp
    with Suc.prems have "\<not> sendMessage E (calls w + Suc j) (telegram_chat_id a) m" by blast
    then show "\<not> sendMessage E (calls ?w' + j) (telegram_chat_id a) m" by simp
  qed
  from Suc.IH[OF this] first show ?case
    by (simp add: failed_round_def)
qed

lemma send_loop_succeed_at:
  "k < n \<Longrightarrow> (\<forall>j<k. \<not> sendMessage E (calls w + j) (telegram_chat_id a) m) \<Longrightarrow>
   sendMessage E (calls w + k) (telegram_chat_id a) m \<Longrightarrow>
   send_loop n ev m E a w =
     w\<lparr>trace := trace w @ concat (replicate k (failed_round a m))
          @ [SendMessage (telegram_chat_id a) m True, Info (Sending_succeed (e_id ev) (d_path (e_data ev)))],
       calls := calls w + Suc k\<rparr>"
proof (induction n arbitrary: w k)
  case 0
  then show ?case by simp
next
  case (Suc n)
  show ?case
  proof (cases k)
    case 0
    with Suc.prems show ?thesis by (intro world_eqI) simp_all
  next
    case (Suc k')
    let ?w' = "emit (Sleep (timeout a)) (debug_msg Telegram_error a
       ((emit (SendMessage (telegram_chat_id a) m False) w)\<lparr>calls := calls w + 1\<rparr>))"
    from Suc.prems Suc have first: "\<not> sendMessage E (calls w) (telegram_chat_id a) m"
      by (metis add.right_neutral zero_less_Suc)
    have a1: "k' < n" using Suc.prems(1) Suc by simp
    have a2: "\<forall>j<k'. \<not> sendMessage E (calls ?w' + j) (telegram_chat_id a) m"
    proof (intro allI impI)
      fix j assume "j < k'"
      then have "Suc j < k" using Suc by simp
      with Suc.prems(2) have "\<not> sendMessage E (calls w + Suc j) (telegram_chat_id a) m" by blast
      then show "\<not> sendMessage E (calls ?w' + j) (telegram_chat_id a) m" by simp
    qed
    have a3: "sendMessage E (calls ?w' + k') (telegram_chat_id a) m"
      using Suc.prems(3) Suc by simp
    from Suc.IH[OF a1 a2 a3] first Suc show ?thesis
      by (simp add: failed_round_def)
  qed
qed

lemma send_loop_disk [simp]: "disk (send_loop n ev m E a w) = disk w"
  by (induction n arbitrary: w) (simp_all add: Let_def)

lemma send_loop_trace_ext: "\<exists>ext. trace (send_loop n ev m E a w) = trace w @ ext"
proof (induction n arbitrary: w)
  case 0
  show ?case by simp
next
  case (Suc n)
  show ?case
  proof (cases "sendMessage E (calls w) (telegram_chat_id a) m")
    case True
    then show ?thesis by simp
  next
    case False
    let ?w' = "emit (Sleep (timeout a)) (debug_msg Telegram_error a
       ((emit (SendMessage (telegram_chat_id a) m False) w)\<lparr>calls := calls w + 1\<rparr>))"
    from Suc.IH[of ?w'] obtain ext where "trace (send_loop n ev m E a ?w') = trace ?w' @ ext" ..
    with False show ?thesis by simp
  qed
qed

lemma send_loop_first:
  "\<exists>rest. trace (send_loop (Suc n) ev m E a w) =
     trace w @ SendMessage (telegram_chat_id a) m (sendMessage E (calls w) (telegram_chat_id a) m) # rest"
proof (cases "sendMessage E (calls w) (telegram_chat_id a) m")
  case True
  then show ?thesis by simp
next
  case False
  let ?w' = "emit (Sleep (timeout a)) (debug_msg Telegram_error a
     ((emit (SendMessage (telegram_chat_id a) m False) w)\<lparr>calls := calls w + 1\<rparr>))"
  from send_loop_trace_ext[of n ev m E a ?w'] obtain ext
    where "trace (send_loop n ev m E a ?w') = trace ?w' @ ext" ..
  with False show ?thesis by simp
qed

lemma send_event_attempts:
  "length (filter is_attempt (trace (send_event ev E a w))) > length (filter is_attempt (trace w))"
proof -
  obtain rest where "trace (send_event ev E a w) = trace w @ SendMessage (telegram_chat_id a)
      (Msg_text (d_label (e_data ev)) (basename (d_path (e_data ev))))
      (sendMessage E (calls w) (telegram_chat_id a) (Msg_text (d_label (e_data ev)) (basename (d_path (e_data ev))))) # rest"
    using send_loop_first[of 2 ev _ E a w] by (auto simp: send_event_def numeral_3_eq_3)
  then show ?thesis by simp
qed

lemma send_event_disk [simp]: "disk (send_event ev E a w) = disk w"
  by (simp add: send_event_def)

lemma parse_event_fst [simp]: "fst (parse_event ev E a w) = e_id ev"
  by (simp add: parse_event_def)

lemma parse_event_disk [simp]: "disk (snd (parse_event ev E a w)) = disk w"
  by (simp add: parse_event_def)

lemma parse_event_rules:
  "parse_event ev E a w =
     (e_id ev, case first_failing 1 (rule_outcomes ev E a) of
                 None \<Rightarrow> send_event ev E a w
               | Some k \<Rightarrow> debug_msg (skip_line k ev E a) a w)"
  by (auto simp: parse_event_def rule_outcomes_def rule_action_def rule_event_type_def
      rule_file_def rule_label_def rule_movies_def rule_sample_def skip_line_def
      split: option.splits)

lemma first_failing_None: "first_failing k bs = None \<longleftrightarrow> list_all id bs"
  by (induction bs arbitrary: k) auto

lemma parse_event_notifies:
  "(filter is_attempt (trace (snd (parse_event ev E a w))) \<noteq> filter is_attempt (trace w))
     = shouldNotify ev E a"
proof (cases "first_failing 1 (rule_outcomes ev E a)")
  case None
  then have "shouldNotify ev E a" by (simp add: shouldNotify_def first_failing_None)
  moreover have "snd (parse_event ev E a w) = send_event ev E a w"
    using None by (simp add: parse_event_rules)
  ultimately show ?thesis using send_event_attempts[of w ev E a] by auto
next
  case (Some k)
  then have "\<not> shouldNotify ev E a"
    using first_failing_None[of 1 "rule_outcomes ev E a"] by (simp add: shouldNotify_def)
  moreover have "snd (parse_event ev E a w) = debug_msg (skip_line k ev E a) a w"
    using Some by (simp add: parse_event_rules)
  ultimately show ?thesis by simp
qed

lemma process_events_fst:
  "fst (process_events evs c E a w) = foldl (\<lambda>c ev. max c (e_id ev)) c evs"
proof (induction evs arbitrary: c w)
  case Nil
  show ?case by simp
next
  case (Cons ev evs)
  show ?case
  proof (cases "e_id ev \<le> c")
    case True
    then show ?thesis using Cons.IH by (simp add: Let_def max_def)
  next
    case False
    obtain i w2 where p: "parse_event ev E a (debug_msg (Event_dump ev) a w) = (i, w2)"
      by (cases "parse_event ev E a (debug_msg (Event_dump ev) a w)")
    then have "i = e_id ev" using parse_event_fst[of ev E a "debug_msg (Event_dump ev) a w"] by simp
    with False p show ?thesis using Cons.IH by (simp add: Let_def max_def)
  qed
qed

lemma process_events_disk [simp]: "disk (snd (process_events evs c E a w)) = disk w"
proof (induction evs arbitrary: c w)
  case Nil
  show ?case by simp
next
  case (Cons ev evs)
  show ?case
  proof (cases "e_id ev \<le> c")
    case True
    then show ?thesis using Cons.IH by (simp add: Let_def)
  next
    case False
    obtain i w2 where p: "parse_event ev E a (debug_msg (Event_dump ev) a w) = (i, w2)"
      by (cases "parse_event ev E a (debug_msg (Event_dump ev) a w)")
    then have "disk w2 = disk w"
      using parse_event_disk[of ev E a "debug_msg (Event_dump ev) a w"] by simp
    with False p show ?thesis using Cons.IH by (simp add: Let_def)
  qed
qed

lemma process_events_append:
  "process_events (xs @ ys) c E a w =
     (case process_events xs c E a w of (c', w') \<Rightarrow> process_events ys c' E a w')"
proof (induction xs arbitrary: c w)
  case Nil
  show ?case by simp
next
  case (Cons ev xs)
  show ?case using Cons.IH by (simp add: Let_def split: prod.splits)
qed

lemma foldl_max_ge: "c \<le> foldl (\<lambda>c ev. max c (e_id ev)) c evs"
proof (induction evs arbitrary: c)
  case Nil
  show ?case by simp
next
  case (Cons ev evs)
  have "c \<le> max c (e_id ev)" by simp
  also have "\<dots> \<le> foldl (\<lambda>c ev. max c (e_id ev)) (max c (e_id ev)) evs" by (rule Cons.IH)
  finally show ?case by simp
qed

lemma foldl_max_bound:
  "c \<le> b \<Longrightarrow> \<forall>ev\<in>set evs. e_id ev \<le> b \<Longrightarrow> foldl (\<lambda>c ev. max c (e_id ev)) c evs \<le> b"
  by (induction evs arbitrary: c) simp_all

lemma foldl_max_mem: "ev \<in> set evs \<Longrightarrow> e_id ev \<le> foldl (\<lambda>c ev. max c (e_id ev)) c evs"
proof (induction evs arbitrary: c)
  case Nil
  then show ?case by simp
next
  case (Cons x evs)
  show ?case
  proof (cases "ev = x")
    case True
    have "e_id x \<le> max c (e_id x)" by simp
    also have "\<dots> \<le> foldl (\<lambda>c ev. max c (e_id ev)) (max c (e_id x)) evs" by (rule foldl_max_ge)
    finally show ?thesis using True by simp
  next
    case False
    with Cons.prems have "ev \<in> set evs" by simp
    from Cons.IH[OF this] show ?thesis by simp
  qed
qed

lemma foldl_max_sorted:
  "sorted (map e_id evs) \<Longrightarrow> evs \<noteq> [] \<Longrightarrow>
   foldl (\<lambda>c ev. max c (e_id ev)) c evs = max (e_id (last evs)) c"
proof (induction evs arbitrary: c rule: rev_induct)
  case Nil
  then show ?case by simp
next
  case (snoc x xs)
  from snoc.prems(1) have le: "\<forall>ev\<in>set xs. e_id ev \<le> e_id x"
    by (auto simp: sorted_append)
  define m where "m = foldl (\<lambda>c ev. max c (e_id ev)) c xs"
  have "m \<le> max (e_id x) c"
    unfolding m_def using le by (intro foldl_max_bound) auto
  moreover have "c \<le> m" unfolding m_def by (rule foldl_max_ge)
  ultimately have "max m (e_id x) = max (e_id x) c" by linarith
  then show ?case by (simp add: m_def)
qed

lemma process_events_all_skipped:
  "\<forall>ev\<in>set evs. e_id ev \<le> c \<Longrightarrow>
   process_events evs c E a w = (c, w\<lparr>trace := trace w @ skipped_trace a evs\<rparr>)"
proof (induction evs arbitrary: w)
  case Nil
  show ?case by (simp add: skipped_trace_def)
next
  case (Cons ev evs)
  then have "e_id ev \<le> c" "\<forall>ev\<in>set evs. e_id ev \<le> c" by simp_all
  with Cons.IH[of "debug_msg (Already_parsed (e_id ev)) a (debug_msg (Event_dump ev) a w)"]
  show ?case by (simp add: Let_def skipped_trace_def)
qed

lemma debug_msg_eq: "debug_msg l a w = w\<lparr>trace := trace w @ dbg a l\<rparr>"
  by (intro world_eqI) simp_all

lemma load_last_id_loaded:
  assumes "loaded a w = Some P"
  shows "\<exists>w1. load_last_id a (debug_msg l a w) = Inr (P, w1) \<and> disk w1 = disk w \<and> calls w1 = calls w
           \<and> filter is_write (trace w1) = filter is_write (trace w)
           \<and> filter is_attempt (trace w1) = filter is_attempt (trace w)"
  using assms
  by (auto simp: loaded_def load_last_id_def split: id_file.splits option.splits)

lemma loaded_Content: "disk w = Content s \<Longrightarrow> loaded a w = py_int s"
  by (simp add: loaded_def load_last_id_def split: option.splits)

lemma fetch_events_ok:
  "http_get E (url_of a last_id) (auth a) = Response 200 body \<Longrightarrow>
   fetch_events E a last_id w =
     (Some body, w\<lparr>trace := trace w @ dbg a (Used_url (url_of a last_id))
                     @ [HttpGet (url_of a last_id) (auth a)]\<rparr>)"
  by (simp add: fetch_events_def Let_def debug_msg_eq emit_def)

lemma fetch_events_fail:
  "\<forall>body. http_get E (url_of a last_id) (auth a) \<noteq> Response 200 body \<Longrightarrow>
   fetch_events E a last_id w =
     (None, w\<lparr>trace := trace w @ dbg a (Used_url (url_of a last_id))
                 @ [HttpGet (url_of a last_id) (auth a), Info Error_while_fetching, Sleep (timeout a)]\<rparr>)"
  by (auto simp: fetch_events_def Let_def debug_msg_eq emit_def split: http_result.splits)

lemma main_fetch_ok:
  assumes "loaded a w = Some P" and "http_get E (url_of a P) (auth a) = Response 200 evs"
  shows "\<exists>w2. main E a w = (Exit 0, save_last_id (fst (process_events evs P E a w2)) E a
                   (snd (process_events evs P E a w2))) \<and> disk w2 = disk w
            \<and> filter is_attempt (trace w2) = filter is_attempt (trace w)"
proof -
  from load_last_id_loaded[OF assms(1), of Arguments] obtain w1
    where l: "load_last_id a (debug_msg Arguments a w) = Inr (P, w1)" and d: "disk w1 = disk w"
      and t: "filter is_attempt (trace w1) = filter is_attempt (trace w)"
    by blast
  let ?w2 = "w1\<lparr>trace := trace w1 @ dbg a (Used_url (url_of a P)) @ [HttpGet (url_of a P) (auth a)]\<rparr>"
  have "main E a w = (Exit 0, save_last_id (fst (process_events evs P E a ?w2)) E a
                   (snd (process_events evs P E a ?w2)))"
    by (simp add: main_def l fetch_events_ok[OF assms(2)] split: prod.splits)
  moreover have "disk ?w2 = disk w" using d by simp
  moreover have "filter is_attempt (trace ?w2) = filter is_attempt (trace w)" using t by simp
  ultimately show ?thesis by blast
qed


lemma main_fetch_fail:
  assumes "loaded a w = Some P" and "\<forall>body. http_get E (url_of a P) (auth a) \<noteq> Response 200 body"
  shows "fst (main E a w) = Exit 1" and "disk (snd (main E a w)) = disk w"
    and "filter is_write (trace (snd (main E a w))) = filter is_write (trace w)"
    and "filter is_attempt (trace (snd (main E a w))) = filter is_attempt (trace w)"
proof -
  from load_last_id_loaded[OF assms(1), of Arguments] obtain w1
    where l: "load_last_id a (debug_msg Arguments a w) = Inr (P, w1)" and d: "disk w1 = disk w"
      and t: "filter is_write (trace w1) = filter is_write (trace w)"
      and t': "filter is_attempt (trace w1) = filter is_attempt (trace w)"
    by blast
  show "fst (main E a w) = Exit 1" "disk (snd (main E a w)) = disk w"
    "filter is_write (trace (snd (main E a w))) = filter is_write (trace w)"
    "filter is_attempt (trace (snd (main E a w))) = filter is_attempt (trace w)"
    by (simp_all add: main_def l d t t' fetch_events_fail[OF assms(2)])
qed

lemma save_last_id_trace:
  "trace (save_last_id c E a w) =
     trace w @ FileWrite (id_file_location a) (str_int c)
       # (if file_write E = Written then [] else dbg a Error_while_writing)"
  by (simp add: save_last_id_def Let_def split: write_result.splits)

lemma save_last_id_disk:
  "disk (save_last_id c E a w) =
     (case file_write E of Written \<Rightarrow> Content (str_int c) | OpenFailed \<Rightarrow> disk w
      | WriteFailed \<Rightarrow> Content [])"
  by (simp add: save_last_id_def Let_def split: write_result.splits)

lemma main_rerun:
  assumes "loaded a w = Some P" and "http_get E (url_of a P) (auth a) = Response 200 evs"
    and "file_write E = Written"
    and "http_get E' (url_of a' (fst (process_events evs P E a w))) (auth a') = Response 200 evs"
  shows "fst (main E' a' (snd (main E a w))) = Exit 0"
    and "filter is_attempt (trace (snd (main E' a' (snd (main E a w)))))
          = filter is_attempt (trace (snd (main E a w)))"
    and "file_write E' = Written \<Longrightarrow> disk (snd (main E' a' (snd (main E a w)))) = disk (snd (main E a w))"
proof -
  define C where "C = foldl (\<lambda>c ev. max c (e_id ev)) P evs"
  from main_fetch_ok[OF assms(1,2)] obtain w2
    where run: "main E a w = (Exit 0, save_last_id (fst (process_events evs P E a w2)) E a
                   (snd (process_events evs P E a w2)))"
    by blast
  define w1 where "w1 = snd (main E a w)"
  have d1: "disk w1 = Content (str_int C)"
    using assms(3) by (simp add: w1_def run save_last_id_disk process_events_fst C_def)
  then have l1: "loaded a' w1 = Some C" by (simp add: loaded_Content py_int_str_int)
  have f: "http_get E' (url_of a' C) (auth a') = Response 200 evs"
    using assms(4) by (simp add: process_events_fst C_def)
  from main_fetch_ok[OF l1 f] obtain w3
    where run2: "main E' a' w1 = (Exit 0, save_last_id (fst (process_events evs C E' a' w3)) E' a'
                   (snd (process_events evs C E' a' w3)))"
      and d3: "disk w3 = disk w1" and t3: "filter is_attempt (trace w3) = filter is_attempt (trace w1)"
    by blast
  have "\<forall>ev\<in>set evs. e_id ev \<le> C" by (simp add: C_def foldl_max_mem)
  then have p: "process_events evs C E' a' w3 = (C, w3\<lparr>trace := trace w3 @ skipped_trace a' evs\<rparr>)"
    by (rule process_events_all_skipped)
  show "fst (main E' a' (snd (main E a w))) = Exit 0"
    unfolding w1_def[symmetric] by (simp add: run2)
  show "filter is_attempt (trace (snd (main E' a' (snd (main E a w)))))
          = filter is_attempt (trace (snd (main E a w)))"
    unfolding w1_def[symmetric] by (simp add: run2 p save_last_id_trace t3)
  show "disk (snd (main E' a' (snd (main E a w)))) = disk (snd (main E a w))" if "file_write E' = Written"
    unfolding w1_def[symmetric] using that by (simp add: run2 p save_last_id_disk d1)
qed

lemma attempts_replicate_failed:
  "length (filter is_attempt (concat (replicate n (failed_round a m)))) = n"
  by (induction n) (simp_all add: failed_round_def)

lemmas sc_defs = sc_event_def sc_args_def sc_guess_def sc_env_def sc_world_def

lemma contains_sublist: "contains x p = sublist x p"
  by (induction p) (simp_all add: sublist_Cons_right)

lemma contains_iff: "contains x p = (\<exists>ps ss. p = ps @ x @ ss)"
  by (simp add: contains_sublist sublist_def)

lemma is_request_dbg [simp]: "filter is_request (dbg a l) = []"
  by (simp add: dbg_def)

lemma send_loop_requests [simp]:
  "filter is_request (trace (send_loop n ev m E a w)) = filter is_request (trace w)"
  by (induction n arbitrary: w) (simp_all add: Let_def)




lemma fetch_events_fst_cases:
  "fst (fetch_events E a P w) = None \<or> (\<exists>evs. fst (fetch_events E a P w) = Some evs)"
  by (cases "fst (fetch_events E a P w)") simp_all


lemma loaded_disk: "disk w' = disk w \<Longrightarrow> loaded a' w' = loaded a w"
  by (simp add: loaded_def load_last_id_def split: id_file.splits option.splits)


section \<open>The claims\<close>

text \<open>Claim C1 (idempotent replay). An event whose id is at most the loaded cursor \<open>C\<close> is
  skipped wherever it stands in the fetched sequence: the loop goes on with the cursor it
  had and adds nothing to the trace but the two debug lines of the skip, so the filter is not
  run on it and no Telegram call is made. When every id is at most \<open>C\<close> the whole loop
  returns \<open>C\<close> and adds only skip lines. Running the loop again over the same events from
  the cursor the first run ended with, in any environment, ends with the same cursor and
  adds only skip lines, which contain no Telegram call. For whole runs: after a run that
  loaded \<open>C\<close>, fetched the events and wrote its cursor, a second run that is answered
  with the same events exits with status 0 and makes no Telegram call.\<close>

theorem idempotent_replay:
  "(e_id ev \<le> C \<longrightarrow>
      process_events (pre @ ev # post) C E a w =
        (case process_events pre C E a w of
           (c, w1) \<Rightarrow> process_events post c E a (w1\<lparr>trace := trace w1 @ skipped_trace a [ev]\<rparr>)))
   \<and> ((\<forall>ev\<in>set evs. e_id ev \<le> C) \<longrightarrow>
      process_events evs C E a w = (C, w\<lparr>trace := trace w @ skipped_trace a evs\<rparr>))
   \<and> process_events evs (fst (process_events evs C E a w)) E' a' w' =
       (fst (process_events evs C E a w), w'\<lparr>trace := trace w' @ skipped_trace a' evs\<rparr>)
   \<and> filter is_attempt (skipped_trace a' evs) = []
   \<and> (loaded a w = Some C \<and> http_get E (url_of a C) (auth a) = Response 200 evs
        \<and> file_write E = Written
        \<and> http_get E' (url_of a' (fst (process_events evs C E a w))) (auth a') = Response 200 evs
      \<longrightarrow> fst (main E' a' (snd (main E a w))) = Exit 0
        \<and> filter is_attempt (trace (snd (main E' a' (snd (main E a w)))))
            = filter is_attempt (trace (snd (main E a w))))"
proof (intro conjI impI)
  assume le: "e_id ev \<le> C"
  obtain c w1 where p: "process_events pre C E a w = (c, w1)"
    by (cases "process_events pre C E a w")
  then have "c = foldl (\<lambda>c ev. max c (e_id ev)) C pre"
    using process_events_fst[of pre C E a w] by simp
  then have "C \<le> c" by (simp add: foldl_max_ge)
  with le have "e_id ev \<le> c" by simp
  then have "process_events (ev # post) c E a w1 =
      process_events post c E a (w1\<lparr>trace := trace w1 @ skipped_trace a [ev]\<rparr>)"
    by (simp add: Let_def debug_msg_eq skipped_trace_def)
  then show "process_events (pre @ ev # post) C E a w =
        (case process_events pre C E a w of
           (c, w1) \<Rightarrow> process_events post c E a (w1\<lparr>trace := trace w1 @ skipped_trace a [ev]\<rparr>))"
    by (simp add: process_events_append p)
next
  assume "\<forall>ev\<in>set evs. e_id ev \<le> C"
  then show "process_events evs C E a w = (C, w\<lparr>trace := trace w @ skipped_trace a evs\<rparr>)"
    by (rule process_events_all_skipped)
next
  have "\<forall>ev\<in>set evs. e_id ev \<le> fst (process_events evs C E a w)"
    by (simp add: process_events_fst foldl_max_mem)
  then show "process_events evs (fst (process_events evs C E a w)) E' a' w' =
       (fst (process_events evs C E a w), w'\<lparr>trace := trace w' @ skipped_trace a' evs\<rparr>)"
    by (rule process_events_all_skipped)
next
  show "filter is_attempt (skipped_trace a' evs) = []" by simp
next
  assume h: "loaded a w = Some C \<and> http_get E (url_of a C) (auth a) = Response 200 evs
        \<and> file_write E = Written
        \<and> http_get E' (url_of a' (fst (process_events evs C E a w))) (auth a') = Response 200 evs"
  then show "fst (main E' a' (snd (main E a w))) = Exit 0"
    by (intro main_rerun(1)[of a w C E evs]) simp_all
next
  assume h: "loaded a w = Some C \<and> http_get E (url_of a C) (auth a) = Response 200 evs
        \<and> file_write E = Written
        \<and> http_get E' (url_of a' (fst (process_events evs C E a w))) (auth a') = Response 200 evs"
  then show "filter is_attempt (trace (snd (main E' a' (snd (main E a w)))))
            = filter is_attempt (trace (snd (main E a w)))"
    by (intro main_rerun(2)[of a w C E evs]) simp_all
qed


theorem idempotent_replay_witness:
  "e_id (sc_event 3 ''LocalChangeDetected'' ''modified'' ''/x/Alien.mkv'') \<le> 5
   \<and> process_events [sc_event 3 ''LocalChangeDetected'' ''modified'' ''/x/Alien.mkv''] 5
        (sc_env (Response 200 [sc_event 6 ''LocalChangeDetected'' ''modified'' ''/x/Inception.mkv'']) (\<lambda>k. True))
        sc_args (sc_world (Content ''5''))
       = (5, sc_world (Content ''5''))
   \<and> loaded sc_args (sc_world (Content ''5'')) = Some 5
   \<and> trace (snd (main
        (sc_env (Response 200 [sc_event 6 ''LocalChangeDetected'' ''modified'' ''/x/Inception.mkv'']) (\<lambda>k. True))
        sc_args (snd (main
          (sc_env (Response 200 [sc_event 6 ''LocalChangeDetected'' ''modified'' ''/x/Inception.mkv'']) (\<lambda>k. True))
          sc_args (sc_world (Content ''5''))))))
      = [HttpGet ''http://localhost/rest/events/disk?since=5&timeout=10'' ''key'',
         SendMessage ''42'' (Msg_text ''movies'' ''Inception.mkv'') True,
         Info (Sending_succeed 6 ''/x/Inception.mkv''),
         FileWrite ''./SyncthingSnitch.id'' ''6'',
         HttpGet ''http://localhost/rest/events/disk?since=6&timeout=10'' ''key'',
         FileWrite ''./SyncthingSnitch.id'' ''6'']"
proof -
  have l: "loaded sc_args (sc_world (Content ''5'')) = Some 5" by code_simp
  have t: "trace (snd (main
        (sc_env (Response 200 [sc_event 6 ''LocalChangeDetected'' ''modified'' ''/x/Inception.mkv'']) (\<lambda>k. True))
        sc_args (snd (main
          (sc_env (Response 200 [sc_event 6 ''LocalChangeDetected'' ''modified'' ''/x/Inception.mkv'']) (\<lambda>k. True))
          sc_args (sc_world (Content ''5''))))))
      = [HttpGet ''http://localhost/rest/events/disk?since=5&timeout=10'' ''key'',
         SendMessage ''42'' (Msg_text ''movies'' ''Inception.mkv'') True,
         Info (Sending_succeed 6 ''/x/Inception.mkv''),
         FileWrite ''./SyncthingSnitch.id'' ''6'',
         HttpGet ''http://localhost/rest/events/disk?since=6&timeout=10'' ''key'',
         FileWrite ''./SyncthingSnitch.id'' ''6'']"
    by code_simp
  from idempotent_replay[where ev = "sc_event 3 ''LocalChangeDetected'' ''modified'' ''/x/Alien.mkv''"
      and C = 5 and pre = "[]" and post = "[]"
      and evs = "[sc_event 6 ''LocalChangeDetected'' ''modified'' ''/x/Inception.mkv'']"
      and E = "sc_env (Response 200 [sc_event 6 ''LocalChangeDetected'' ''modified'' ''/x/Inception.mkv'']) (\<lambda>k. True)"
      and E' = "sc_env (Response 200 [sc_event 6 ''LocalChangeDetected'' ''modified'' ''/x/Inception.mkv'']) (\<lambda>k. True)"
      and a = sc_args and a' = sc_args and w = "sc_world (Content ''5'')"]
  show ?thesis using l t
    by (simp add: sc_defs skipped_trace_def dbg_def)
qed


text \<open>Claim C2 (monotonic cursor), refuted as stated: the write of the cursor is inside
  \<^verbatim>\<open>try\<close> ... \<^verbatim>\<open>except BaseException\<close>, and \<^verbatim>\<open>open\<close> with mode \<^verbatim>\<open>"w"\<close> has truncated the
  file by then. A run that loads the cursor 5, processes the event 6 and fails in the write
  exits with status 0 and leaves the file empty: no cursor is persisted any more, and the
  next run raises \<^verbatim>\<open>ValueError\<close> when it loads.\<close>

theorem write_failure_loses_cursor:
  "loaded sc_args (sc_world (Content ''5'')) = Some 5
   \<and> main ((sc_env (Response 200 [sc_event 6 ''LocalChangeDetected'' ''modified'' ''/x/Inception.mkv''])
              (\<lambda>k. True))\<lparr>file_write := WriteFailed\<rparr>) sc_args (sc_world (Content ''5''))
      = (Exit 0,
         \<lparr>trace = [HttpGet ''http://localhost/rest/events/disk?since=5&timeout=10'' ''key'',
                   SendMessage ''42'' (Msg_text ''movies'' ''Inception.mkv'') True,
                   Info (Sending_succeed 6 ''/x/Inception.mkv''),
                   FileWrite ''./SyncthingSnitch.id'' ''6''],
          calls = 1, disk = Content ''''\<rparr>)
   \<and> loaded sc_args \<lparr>trace = [], calls = 0, disk = Content ''''\<rparr> = None
   \<and> fst (main (sc_env (Response 200 []) (\<lambda>k. True)) sc_args
            \<lparr>trace = [], calls = 0, disk = Content ''''\<rparr>) = Uncaught ValueError"
  by code_simp

text \<open>Claim C2, amended. In a run that loads the cursor \<open>P\<close> and fetches events with
  ascending ids, the run exits with status 0 and the value handed to the file write is
  \<open>max\<close> of the last id and \<open>P\<close>, or \<open>P\<close> when nothing was fetched; this value is at
  least \<open>P\<close>. When the write succeeds the file holds its decimal form and the next run
  loads exactly it; when the file cannot be opened for writing it stays as it was and the
  next run loads \<open>P\<close> again; when the write fails after the open the file is left empty,
  and the next run raises \<^verbatim>\<open>ValueError\<close> before it fetches.\<close>

theorem monotonic_cursor:
  assumes "loaded a w = Some P"
    and "http_get E (url_of a P) (auth a) = Response 200 evs"
    and "sorted (map e_id evs)"
  shows "let m = (if evs = [] then P else max (e_id (last evs)) P) in
     fst (main E a w) = Exit 0 \<and> P \<le> m
     \<and> (\<exists>tr. trace (snd (main E a w)) =
           tr @ FileWrite (id_file_location a) (str_int m)
             # (if file_write E = Written then [] else dbg a Error_while_writing))
     \<and> (file_write E = Written \<longrightarrow>
          disk (snd (main E a w)) = Content (str_int m) \<and> loaded a (snd (main E a w)) = Some m)
     \<and> (file_write E = OpenFailed \<longrightarrow>
          disk (snd (main E a w)) = disk w \<and> loaded a (snd (main E a w)) = Some P)
     \<and> (file_write E = WriteFailed \<longrightarrow>
          disk (snd (main E a w)) = Content [] \<and> loaded a (snd (main E a w)) = None
          \<and> main E' a (snd (main E a w))
              = (Uncaught ValueError, debug_msg Arguments a (snd (main E a w))))"
proof -
  define m where "m = (if evs = [] then P else max (e_id (last evs)) P)"
  from main_fetch_ok[OF assms(1,2)] obtain w2
    where run: "main E a w = (Exit 0, save_last_id (fst (process_events evs P E a w2)) E a
                   (snd (process_events evs P E a w2)))" and d: "disk w2 = disk w"
    by blast
  have c: "fst (process_events evs P E a w2) = m"
    using assms(3) by (simp add: process_events_fst m_def foldl_max_sorted)
  have "P \<le> m" by (simp add: m_def)
  moreover have "fst (main E a w) = Exit 0" by (simp add: run)
  moreover have "\<exists>tr. trace (snd (main E a w)) =
           tr @ FileWrite (id_file_location a) (str_int m)
             # (if file_write E = Written then [] else dbg a Error_while_writing)"
    unfolding run c snd_conv save_last_id_trace by blast
  moreover have "disk (snd (main E a w)) = Content (str_int m)" if "file_write E = Written"
    using that by (simp add: run c save_last_id_disk)
  moreover have "loaded a (snd (main E a w)) = Some m" if "file_write E = Written"
    using that by (simp add: run c save_last_id_disk loaded_Content py_int_str_int)
  moreover have o: "disk (snd (main E a w)) = disk w" if "file_write E = OpenFailed"
    using that by (simp add: run c save_last_id_disk d)
  moreover have "loaded a (snd (main E a w)) = Some P" if "file_write E = OpenFailed"
    using o[OF that] assms(1) loaded_disk[of "snd (main E a w)" w a a] by simp
  moreover have e: "disk (snd (main E a w)) = Content []" if "file_write E = WriteFailed"
    using that by (simp add: run c save_last_id_disk)
  moreover have "loaded a (snd (main E a w)) = None" if "file_write E = WriteFailed"
    using e[OF that] by (simp add: loaded_Content py_int_def strip_def)
  moreover have "main E' a (snd (main E a w))
              = (Uncaught ValueError, debug_msg Arguments a (snd (main E a w)))"
    if "file_write E = WriteFailed"
    using e[OF that] by (simp add: main_def load_last_id_def py_int_def strip_def)
  ultimately show ?thesis unfolding m_def[symmetric] Let_def by blast
qed

theorem monotonic_cursor_witness:
  "loaded sc_args (sc_world (Content ''5'')) = Some 5
   \<and> sorted (map e_id [sc_event 6 ''LocalChangeDetected'' ''modified'' ''/x/Inception.mkv''])
   \<and> fst (main (sc_env (Response 200 [sc_event 6 ''LocalChangeDetected'' ''modified'' ''/x/Inception.mkv'']) (\<lambda>k. True)) sc_args (sc_world (Content ''5''))) = Exit 0
   \<and> disk (snd (main (sc_env (Response 200 [sc_event 6 ''LocalChangeDetected'' ''modified'' ''/x/Inception.mkv'']) (\<lambda>k. True)) sc_args (sc_world (Content ''5''))))
       = Content ''6''
   \<and> loaded sc_args (snd (main (sc_env (Response 200 [sc_event 6 ''LocalChangeDetected'' ''modified'' ''/x/Inception.mkv'']) (\<lambda>k. True)) sc_args
        (sc_world (Content ''5'')))) = Some 6
   \<and> disk (snd (main ((sc_env (Response 200 [sc_event 6 ''LocalChangeDetected'' ''modified'' ''/x/Inception.mkv'']) (\<lambda>k. True))\<lparr>file_write := OpenFailed\<rparr>) sc_args
        (sc_world (Content ''5'')))) = Content ''5''
   \<and> disk (snd (main ((sc_env (Response 200 [sc_event 6 ''LocalChangeDetected'' ''modified'' ''/x/Inception.mkv'']) (\<lambda>k. True))\<lparr>file_write := WriteFailed\<rparr>) sc_args
        (sc_world (Content ''5'')))) = Content []
   \<and> loaded sc_args (snd (main ((sc_env (Response 200 [sc_event 6 ''LocalChangeDetected'' ''modified'' ''/x/Inception.mkv'']) (\<lambda>k. True))\<lparr>file_write := WriteFailed\<rparr>)
        sc_args (sc_world (Content ''5'')))) = None"
proof -
  have h1: "loaded sc_args (sc_world (Content ''5'')) = Some 5" by code_simp
  have h2: "http_get (sc_env (Response 200 [sc_event 6 ''LocalChangeDetected'' ''modified'' ''/x/Inception.mkv'']) (\<lambda>k. True))
      (url_of sc_args 5) (auth sc_args) = Response 200 [sc_event 6 ''LocalChangeDetected'' ''modified'' ''/x/Inception.mkv'']"
    by (simp add: sc_env_def)
  have h2o: "http_get ((sc_env (Response 200 [sc_event 6 ''LocalChangeDetected'' ''modified'' ''/x/Inception.mkv'']) (\<lambda>k. True))\<lparr>file_write := OpenFailed\<rparr>)
      (url_of sc_args 5) (auth sc_args) = Response 200 [sc_event 6 ''LocalChangeDetected'' ''modified'' ''/x/Inception.mkv'']"
    by (simp add: sc_env_def)
  have h2f: "http_get ((sc_env (Response 200 [sc_event 6 ''LocalChangeDetected'' ''modified'' ''/x/Inception.mkv'']) (\<lambda>k. True))\<lparr>file_write := WriteFailed\<rparr>)
      (url_of sc_args 5) (auth sc_args) = Response 200 [sc_event 6 ''LocalChangeDetected'' ''modified'' ''/x/Inception.mkv'']"
    by (simp add: sc_env_def)
  have h3: "sorted (map e_id [sc_event 6 ''LocalChangeDetected'' ''modified'' ''/x/Inception.mkv''])"
    by simp
  have h4: "file_write (sc_env (Response 200 [sc_event 6 ''LocalChangeDetected'' ''modified'' ''/x/Inception.mkv'']) (\<lambda>k. True)) = Written"
    by (simp add: sc_env_def)
  have s: "str_int 6 = ''6''" by code_simp
  have d: "disk (sc_world (Content ''5'')) = Content ''5''" by (simp add: sc_world_def)
  from monotonic_cursor[OF h1 h2 h3] monotonic_cursor[OF h1 h2o h3] monotonic_cursor[OF h1 h2f h3]
    h4 s d
  show ?thesis using h1 h3
    by (simp add: Let_def sc_event_def)
qed




text \<open>Claim C4 (fetch failure leaves the cursor alone). In a run whose fetch fails (the
  request raises, or the status is not 200) the process exits with status 1, the cursor
  file is what it was before the run, and the trace gains no file write.\<close>

theorem fetch_failure_keeps_cursor:
  assumes "loaded a w = Some P"
    and "\<forall>body. http_get E (url_of a P) (auth a) \<noteq> Response 200 body"
  shows "fst (main E a w) = Exit 1 \<and> disk (snd (main E a w)) = disk w
     \<and> filter is_write (trace (snd (main E a w))) = filter is_write (trace w)"
  using main_fetch_fail[OF assms] by simp

theorem fetch_failure_keeps_cursor_witness:
  "loaded sc_args (sc_world (Content ''5'')) = Some 5
   \<and> (\<forall>body. http_get (sc_env RequestException (\<lambda>k. True)) (url_of sc_args 5) (auth sc_args)
         \<noteq> Response 200 body)
   \<and> fst (main (sc_env RequestException (\<lambda>k. True)) sc_args (sc_world (Content ''5''))) = Exit 1
   \<and> disk (snd (main (sc_env RequestException (\<lambda>k. True)) sc_args (sc_world (Content ''5''))))
       = Content ''5''"
proof -
  have h1: "loaded sc_args (sc_world (Content ''5'')) = Some 5" by code_simp
  have h2: "\<forall>body. http_get (sc_env RequestException (\<lambda>k. True)) (url_of sc_args 5) (auth sc_args)
         \<noteq> Response 200 body"
    by (simp add: sc_env_def)
  from fetch_failure_keeps_cursor[OF h1 h2] show ?thesis using h1 h2
    by (simp add: sc_world_def)
qed

text \<open>Claim C5 (filter precedence and short circuit). \<^verbatim>\<open>parse_event\<close> behaves as the first
  rule that fails, in the order of the specification, dictates: it logs the line of that
  rule and does nothing else, whatever the later rules would say; when no rule fails it
  calls \<^verbatim>\<open>send_event\<close>. A Telegram call is made exactly when all six rules pass. When one
  of the rules 1 to 4 fails, the result does not depend on the environment at all: neither
  \<^verbatim>\<open>guess_type\<close> nor the bot is consulted.\<close>

theorem filter_precedence:
  "parse_event ev E a w =
     (e_id ev, case first_failing 1 (rule_outcomes ev E a) of
                 None \<Rightarrow> send_event ev E a w
               | Some k \<Rightarrow> debug_msg (skip_line k ev E a) a w)
   \<and> (filter is_attempt (trace (snd (parse_event ev E a w))) \<noteq> filter is_attempt (trace w))
       = shouldNotify ev E a
   \<and> (\<not> rule_action ev \<or> \<not> rule_event_type ev \<or> \<not> rule_file ev \<or> \<not> rule_label ev a \<longrightarrow>
        parse_event ev E' a w = parse_event ev E a w)"
proof (intro conjI impI)
  show "parse_event ev E a w =
     (e_id ev, case first_failing 1 (rule_outcomes ev E a) of
                 None \<Rightarrow> send_event ev E a w
               | Some k \<Rightarrow> debug_msg (skip_line k ev E a) a w)"
    by (rule parse_event_rules)
  show "(filter is_attempt (trace (snd (parse_event ev E a w))) \<noteq> filter is_attempt (trace w))
       = shouldNotify ev E a"
    by (rule parse_event_notifies)
  assume "\<not> rule_action ev \<or> \<not> rule_event_type ev \<or> \<not> rule_file ev \<or> \<not> rule_label ev a"
  then show "parse_event ev E' a w = parse_event ev E a w"
    by (auto simp: parse_event_def rule_action_def rule_event_type_def rule_file_def
        rule_label_def split: option.splits)
qed

theorem filter_precedence_witness:
  "\<not> rule_action (sc_event 6 ''RemoteChangeDetected'' ''deleted'' ''/x/Movie.Sample.txt'')
   \<and> \<not> rule_event_type (sc_event 6 ''RemoteChangeDetected'' ''deleted'' ''/x/Movie.Sample.txt'')
   \<and> \<not> rule_sample (sc_event 6 ''RemoteChangeDetected'' ''deleted'' ''/x/Movie.Sample.txt'')
   \<and> parse_event (sc_event 6 ''RemoteChangeDetected'' ''deleted'' ''/x/Movie.Sample.txt'')
        (sc_env RequestException (\<lambda>k. True)) (sc_args\<lparr>verbose := 1\<rparr>) (sc_world Absent)
      = (6, \<lparr>trace = [Debug (Ignoring_action 6 ''deleted'')], calls = 0, disk = Absent\<rparr>)"
proof -
  have r: "first_failing 1 (rule_outcomes (sc_event 6 ''RemoteChangeDetected'' ''deleted'' ''/x/Movie.Sample.txt'')
      (sc_env RequestException (\<lambda>k. True)) (sc_args\<lparr>verbose := 1\<rparr>)) = Some 1"
    by (simp add: rule_outcomes_def rule_action_def sc_event_def)
  have s: "\<not> rule_sample (sc_event 6 ''RemoteChangeDetected'' ''deleted'' ''/x/Movie.Sample.txt'')"
    by code_simp
  from filter_precedence[of "sc_event 6 ''RemoteChangeDetected'' ''deleted'' ''/x/Movie.Sample.txt''"
      "sc_env RequestException (\<lambda>k. True)" "sc_args\<lparr>verbose := 1\<rparr>" "sc_world Absent"]
  show ?thesis using r s
    by (simp add: skip_line_def debug_msg_def emit_def sc_defs rule_action_def rule_event_type_def)
qed

text \<open>Claim C6 (the cursor advances whatever the outcome). \<^verbatim>\<open>parse_event\<close> returns the id
  of the event for every configuration and environment, hence whether a rule skips the
  event, the message is delivered, or every delivery attempt fails; and for an event whose
  id is above the cursor, the loop continues with that id as the cursor.\<close>

theorem cursor_advances_whatever_the_outcome:
  "fst (parse_event ev E a w) = e_id ev
   \<and> (last_id < e_id ev \<longrightarrow>
        process_events (ev # evs) last_id E a w =
          process_events evs (e_id ev) E a (snd (parse_event ev E a (debug_msg (Event_dump ev) a w)))
        \<and> fst (process_events [ev] last_id E a w) = e_id ev)"
  by (simp add: Let_def split: prod.splits) (metis parse_event_fst fst_conv)

theorem cursor_advances_witness:
  "(5::int) < e_id (sc_event 6 ''RemoteChangeDetected'' ''modified'' ''/x/Inception.mkv'')
   \<and> fst (process_events [sc_event 6 ''RemoteChangeDetected'' ''modified'' ''/x/Inception.mkv''] 5
        (sc_env RequestException (\<lambda>k. False)) sc_args (sc_world (Content ''5''))) = 6"
  using cursor_advances_whatever_the_outcome[of
      "sc_event 6 ''RemoteChangeDetected'' ''modified'' ''/x/Inception.mkv''"
      "sc_env RequestException (\<lambda>k. False)" sc_args "sc_world (Content ''5'')" 5 "[]"]
  by (simp add: sc_event_def)

text \<open>Claim C7 (retry bound). When every call of \<^verbatim>\<open>bot.sendMessage\<close> fails, \<^verbatim>\<open>send_event\<close>
  makes exactly three calls, sleeps the configured timeout after each, logs that sending
  failed completely and returns. When the first \<open>k\<close> calls fail (\<open>k < 3\<close>) and the next
  one succeeds, it makes exactly \<open>k + 1\<close> calls, sleeps after each failed one, logs the
  success and stops. \<^verbatim>\<open>send_event\<close> is a total function to worlds: it raises nothing.\<close>

theorem retry_bound:
  "((\<forall>j<3. \<not> sendMessage E (calls w + j) (telegram_chat_id a) (msg_of ev)) \<longrightarrow>
      send_event ev E a w =
        w\<lparr>trace := trace w @ concat (replicate 3 (failed_round a (msg_of ev)))
             @ dbg a Sending_failed_completely,
          calls := calls w + 3\<rparr>
      \<and> length (filter is_attempt (trace (send_event ev E a w)))
          = length (filter is_attempt (trace w)) + 3)
   \<and> (k < 3 \<and> (\<forall>j<k. \<not> sendMessage E (calls w + j) (telegram_chat_id a) (msg_of ev))
        \<and> sendMessage E (calls w + k) (telegram_chat_id a) (msg_of ev) \<longrightarrow>
      send_event ev E a w =
        w\<lparr>trace := trace w @ concat (replicate k (failed_round a (msg_of ev)))
             @ [SendMessage (telegram_chat_id a) (msg_of ev) True,
                Info (Sending_succeed (e_id ev) (d_path (e_data ev)))],
          calls := calls w + Suc k\<rparr>
      \<and> length (filter is_attempt (trace (send_event ev E a w)))
          = length (filter is_attempt (trace w)) + Suc k)"
proof (intro conjI impI)
  assume f: "\<forall>j<3. \<not> sendMessage E (calls w + j) (telegram_chat_id a) (msg_of ev)"
  from send_loop_all_fail[OF f, of ev]
  show eq: "send_event ev E a w =
        w\<lparr>trace := trace w @ concat (replicate 3 (failed_round a (msg_of ev)))
             @ dbg a Sending_failed_completely,
          calls := calls w + 3\<rparr>"
    by (simp add: send_event_def msg_of_def)
  show "length (filter is_attempt (trace (send_event ev E a w)))
          = length (filter is_attempt (trace w)) + 3"
    unfolding eq by (simp add: attempts_replicate_failed del: replicate.simps replicate_Suc)
next
  assume h: "k < 3 \<and> (\<forall>j<k. \<not> sendMessage E (calls w + j) (telegram_chat_id a) (msg_of ev))
        \<and> sendMessage E (calls w + k) (telegram_chat_id a) (msg_of ev)"
  then have h1: "k < 3" and h2: "\<forall>j<k. \<not> sendMessage E (calls w + j) (telegram_chat_id a) (msg_of ev)"
    and h3: "sendMessage E (calls w + k) (telegram_chat_id a) (msg_of ev)" by simp_all
  from send_loop_succeed_at[OF h1 h2 h3, of ev]
  show eq: "send_event ev E a w =
        w\<lparr>trace := trace w @ concat (replicate k (failed_round a (msg_of ev)))
             @ [SendMessage (telegram_chat_id a) (msg_of ev) True,
                Info (Sending_succeed (e_id ev) (d_path (e_data ev)))],
          calls := calls w + Suc k\<rparr>"
    by (simp add: send_event_def msg_of_def)
  show "length (filter is_attempt (trace (send_event ev E a w)))
          = length (filter is_attempt (trace w)) + Suc k"
    unfolding eq by (simp add: attempts_replicate_failed del: replicate.simps replicate_Suc)
qed

theorem retry_bound_witness:
  "\<not> sendMessage (sc_env RequestException (\<lambda>k. False)) (calls (sc_world Absent) + 0)
        (telegram_chat_id sc_args) (msg_of (sc_event 6 ''LocalChangeDetected'' ''modified'' ''/x/Inception.mkv''))
   \<and> \<not> sendMessage (sc_env RequestException (\<lambda>k. False)) (calls (sc_world Absent) + 1)
        (telegram_chat_id sc_args) (msg_of (sc_event 6 ''LocalChangeDetected'' ''modified'' ''/x/Inception.mkv''))
   \<and> \<not> sendMessage (sc_env RequestException (\<lambda>k. False)) (calls (sc_world Absent) + 2)
        (telegram_chat_id sc_args) (msg_of (sc_event 6 ''LocalChangeDetected'' ''modified'' ''/x/Inception.mkv''))
   \<and> trace (send_event (sc_event 6 ''LocalChangeDetected'' ''modified'' ''/x/Inception.mkv'')
        (sc_env RequestException (\<lambda>k. False)) sc_args (sc_world Absent))
      = [SendMessage ''42'' (Msg_text ''movies'' ''Inception.mkv'') False, Sleep 10,
         SendMessage ''42'' (Msg_text ''movies'' ''Inception.mkv'') False, Sleep 10,
         SendMessage ''42'' (Msg_text ''movies'' ''Inception.mkv'') False, Sleep 10]
   \<and> (1::nat) < 3
   \<and> \<not> sendMessage (sc_env RequestException (\<lambda>k. k = 1)) (calls (sc_world Absent) + 0)
        (telegram_chat_id sc_args) (msg_of (sc_event 6 ''LocalChangeDetected'' ''modified'' ''/x/Inception.mkv''))
   \<and> sendMessage (sc_env RequestException (\<lambda>k. k = 1)) (calls (sc_world Absent) + 1)
        (telegram_chat_id sc_args) (msg_of (sc_event 6 ''LocalChangeDetected'' ''modified'' ''/x/Inception.mkv''))
   \<and> trace (send_event (sc_event 6 ''LocalChangeDetected'' ''modified'' ''/x/Inception.mkv'')
        (sc_env RequestException (\<lambda>k. k = 1)) sc_args (sc_world Absent))
      = [SendMessage ''42'' (Msg_text ''movies'' ''Inception.mkv'') False, Sleep 10,
         SendMessage ''42'' (Msg_text ''movies'' ''Inception.mkv'') True,
         Info (Sending_succeed 6 ''/x/Inception.mkv'')]"
proof -
  have b: "basename ''/x/Inception.mkv'' = ''Inception.mkv''" by code_simp
  from retry_bound[of "sc_env RequestException (\<lambda>k. False)" "sc_world Absent" sc_args
      "sc_event 6 ''LocalChangeDetected'' ''modified'' ''/x/Inception.mkv''" 1]
    retry_bound[of "sc_env RequestException (\<lambda>k. k = 1)" "sc_world Absent" sc_args
      "sc_event 6 ''LocalChangeDetected'' ''modified'' ''/x/Inception.mkv''" 1]
  show ?thesis using b
    by (simp add: sc_defs msg_of_def failed_round_def dbg_def numeral_3_eq_3)
qed

text \<open>Claim C8 (fetch error signalling). When the request raises or answers with a status
  other than 200, \<^verbatim>\<open>fetch_events\<close> logs the error, sleeps the configured timeout and
  returns \<^verbatim>\<open>None\<close>; on status 200 it returns the decoded events and does not sleep.\<close>

theorem fetch_error_signalling:
  "((\<forall>body. http_get E (url_of a last_id) (auth a) \<noteq> Response 200 body) \<longrightarrow>
      fetch_events E a last_id w =
        (None, w\<lparr>trace := trace w @ dbg a (Used_url (url_of a last_id))
                 @ [HttpGet (url_of a last_id) (auth a), Info Error_while_fetching,
                    Sleep (timeout a)]\<rparr>))
   \<and> (http_get E (url_of a last_id) (auth a) = Response 200 body \<longrightarrow>
      fetch_events E a last_id w =
        (Some body, w\<lparr>trace := trace w @ dbg a (Used_url (url_of a last_id))
                     @ [HttpGet (url_of a last_id) (auth a)]\<rparr>))"
  using fetch_events_fail[of E a last_id w] fetch_events_ok[of E a last_id body w] by blast

theorem fetch_error_signalling_witness:
  "(\<forall>body. http_get (sc_env (Response 503 []) (\<lambda>k. True)) (url_of sc_args 5) (auth sc_args)
       \<noteq> Response 200 body)
   \<and> fetch_events (sc_env (Response 503 []) (\<lambda>k. True)) sc_args 5 (sc_world Absent)
      = (None, \<lparr>trace = [HttpGet ''http://localhost/rest/events/disk?since=5&timeout=10'' ''key'',
                         Info Error_while_fetching, Sleep 10], calls = 0, disk = Absent\<rparr>)
   \<and> http_get (sc_env (Response 200 []) (\<lambda>k. True)) (url_of sc_args 5) (auth sc_args) = Response 200 []
   \<and> fetch_events (sc_env (Response 200 []) (\<lambda>k. True)) sc_args 5 (sc_world Absent)
      = (Some [], \<lparr>trace = [HttpGet ''http://localhost/rest/events/disk?since=5&timeout=10'' ''key''],
                    calls = 0, disk = Absent\<rparr>)"
proof -
  have u: "url_of sc_args 5 = ''http://localhost/rest/events/disk?since=5&timeout=10''" by code_simp
  from fetch_error_signalling[of "sc_env (Response 503 []) (\<lambda>k. True)" sc_args 5 "sc_world Absent" "[]"]
    fetch_error_signalling[of "sc_env (Response 200 []) (\<lambda>k. True)" sc_args 5 "sc_world Absent" "[]"]
  show ?thesis unfolding u by (simp add: sc_env_def sc_args_def sc_world_def dbg_def)
qed

text \<open>Claim C9 (sample exclusion). For an event that passes rules 1 to 5, no Telegram call
  is made if and only if the path contains \<^verbatim>\<open>sample\<close> or \<^verbatim>\<open>Sample\<close> as a contiguous
  substring; the returned cursor is the id of the event either way; and paths that spell
  the word \<^verbatim>\<open>SAMPLE\<close> or \<^verbatim>\<open>sAmple\<close> are not excluded, the event goes to \<^verbatim>\<open>send_event\<close>.\<close>

theorem sample_exclusion:
  assumes "rule_action ev" and "rule_event_type ev" and "rule_file ev" and "rule_label ev a"
    and "rule_movies ev E a"
  shows "(filter is_attempt (trace (snd (parse_event ev E a w))) = filter is_attempt (trace w))
       = (contains ''sample'' (d_path (e_data ev)) \<or> contains ''Sample'' (d_path (e_data ev)))
   \<and> (contains ''sample'' (d_path (e_data ev)) \<or> contains ''Sample'' (d_path (e_data ev)))
       = (\<exists>ps ss. d_path (e_data ev) = ps @ ''sample'' @ ss \<or> d_path (e_data ev) = ps @ ''Sample'' @ ss)
   \<and> fst (parse_event ev E a w) = e_id ev
   \<and> (d_path (e_data ev) = ''/x/Movie.SAMPLE.mkv'' \<or> d_path (e_data ev) = ''/x/Movie.sAmple.mkv''
        \<longrightarrow> snd (parse_event ev E a w) = send_event ev E a w)"
proof (intro conjI impI)
  have "shouldNotify ev E a = rule_sample ev"
    using assms by (simp add: shouldNotify_def rule_outcomes_def)
  with parse_event_notifies[of ev E a w]
  show "(filter is_attempt (trace (snd (parse_event ev E a w))) = filter is_attempt (trace w))
       = (contains ''sample'' (d_path (e_data ev)) \<or> contains ''Sample'' (d_path (e_data ev)))"
    by (auto simp: rule_sample_def)
  show "(contains ''sample'' (d_path (e_data ev)) \<or> contains ''Sample'' (d_path (e_data ev)))
       = (\<exists>ps ss. d_path (e_data ev) = ps @ ''sample'' @ ss \<or> d_path (e_data ev) = ps @ ''Sample'' @ ss)"
    unfolding contains_iff by blast
  show "fst (parse_event ev E a w) = e_id ev" by simp
  assume p: "d_path (e_data ev) = ''/x/Movie.SAMPLE.mkv'' \<or> d_path (e_data ev) = ''/x/Movie.sAmple.mkv''"
  have "\<not> contains ''sample'' ''/x/Movie.SAMPLE.mkv''" "\<not> contains ''Sample'' ''/x/Movie.SAMPLE.mkv''"
    "\<not> contains ''sample'' ''/x/Movie.sAmple.mkv''" "\<not> contains ''Sample'' ''/x/Movie.sAmple.mkv''"
    by code_simp+
  with p have "rule_sample ev" by (auto simp: rule_sample_def)
  with assms have "first_failing 1 (rule_outcomes ev E a) = None"
    by (simp add: rule_outcomes_def)
  then show "snd (parse_event ev E a w) = send_event ev E a w"
    by (simp add: parse_event_rules)
qed

theorem sample_exclusion_witness:
  "rule_action (sc_event 6 ''LocalChangeDetected'' ''modified'' ''/x/Movie.Sample.mkv'')
   \<and> rule_event_type (sc_event 6 ''LocalChangeDetected'' ''modified'' ''/x/Movie.Sample.mkv'')
   \<and> rule_file (sc_event 6 ''LocalChangeDetected'' ''modified'' ''/x/Movie.Sample.mkv'')
   \<and> rule_label (sc_event 6 ''LocalChangeDetected'' ''modified'' ''/x/Movie.Sample.mkv'') sc_args
   \<and> rule_movies (sc_event 6 ''LocalChangeDetected'' ''modified'' ''/x/Movie.Sample.mkv'')
        (sc_env RequestException (\<lambda>k. True)) sc_args
   \<and> contains ''Sample'' (d_path (e_data (sc_event 6 ''LocalChangeDetected'' ''modified'' ''/x/Movie.Sample.mkv'')))
   \<and> filter is_attempt (trace (snd (parse_event (sc_event 6 ''LocalChangeDetected'' ''modified'' ''/x/Movie.Sample.mkv'')
        (sc_env RequestException (\<lambda>k. True)) sc_args (sc_world Absent))))
      = filter is_attempt (trace (sc_world Absent))
   \<and> fst (parse_event (sc_event 6 ''LocalChangeDetected'' ''modified'' ''/x/Movie.Sample.mkv'')
        (sc_env RequestException (\<lambda>k. True)) sc_args (sc_world Absent)) = 6"
proof -
  have h1: "rule_action (sc_event 6 ''LocalChangeDetected'' ''modified'' ''/x/Movie.Sample.mkv'')"
    by (simp add: rule_action_def sc_event_def)
  have h2: "rule_event_type (sc_event 6 ''LocalChangeDetected'' ''modified'' ''/x/Movie.Sample.mkv'')"
    by (simp add: rule_event_type_def sc_event_def)
  have h3: "rule_file (sc_event 6 ''LocalChangeDetected'' ''modified'' ''/x/Movie.Sample.mkv'')"
    by (simp add: rule_file_def sc_event_def)
  have h4: "rule_label (sc_event 6 ''LocalChangeDetected'' ''modified'' ''/x/Movie.Sample.mkv'') sc_args"
    by (simp add: rule_label_def sc_args_def)
  have h5: "rule_movies (sc_event 6 ''LocalChangeDetected'' ''modified'' ''/x/Movie.Sample.mkv'')
        (sc_env RequestException (\<lambda>k. True)) sc_args"
    by code_simp
  have c: "contains ''Sample'' (d_path (e_data (sc_event 6 ''LocalChangeDetected'' ''modified'' ''/x/Movie.Sample.mkv'')))"
    by code_simp
  from sample_exclusion[OF h1 h2 h3 h4 h5, of "sc_world Absent"] c
  show ?thesis using h1 h2 h3 h4 h5 by (simp add: sc_event_def)
qed

text \<open>Claim C10 (the cursor in memory only grows). For any fetched sequence, ordered or
  not: after one more event the cursor is either the one before, when the id of the event is
  at most it, or the id of the event, which is then strictly greater; so the cursor after a
  prefix of the events is at most the cursor after the whole sequence, and the cursor at the
  end of the loop is at least the cursor it started with.\<close>

theorem cursor_strictly_increasing:
  "fst (process_events (pre @ [ev]) c E a w) =
     (if e_id ev \<le> fst (process_events pre c E a w) then fst (process_events pre c E a w)
      else e_id ev)
   \<and> (fst (process_events (pre @ [ev]) c E a w) \<noteq> fst (process_events pre c E a w) \<longrightarrow>
        fst (process_events pre c E a w) < fst (process_events (pre @ [ev]) c E a w))
   \<and> fst (process_events pre c E a w) \<le> fst (process_events (pre @ post) c E a w)
   \<and> c \<le> fst (process_events evs c E a w)"
proof -
  have "foldl (\<lambda>c ev. max c (e_id ev)) c pre \<le>
        foldl (\<lambda>c ev. max c (e_id ev)) (foldl (\<lambda>c ev. max c (e_id ev)) c pre) post"
    by (rule foldl_max_ge)
  moreover have "c \<le> foldl (\<lambda>c ev. max c (e_id ev)) c evs" by (rule foldl_max_ge)
  ultimately show ?thesis by (simp add: process_events_fst max_def)
qed

theorem cursor_strictly_increasing_witness:
  "fst (process_events ([sc_event 7 ''RemoteChangeDetected'' ''modified'' ''a''] @ [sc_event 9 ''RemoteChangeDetected'' ''modified'' ''b''])
        5 (sc_env RequestException (\<lambda>k. True)) sc_args (sc_world Absent))
     \<noteq> fst (process_events [sc_event 7 ''RemoteChangeDetected'' ''modified'' ''a'']
        5 (sc_env RequestException (\<lambda>k. True)) sc_args (sc_world Absent))
   \<and> fst (process_events [sc_event 7 ''RemoteChangeDetected'' ''modified'' ''a'']
        5 (sc_env RequestException (\<lambda>k. True)) sc_args (sc_world Absent))
     < fst (process_events ([sc_event 7 ''RemoteChangeDetected'' ''modified'' ''a''] @ [sc_event 9 ''RemoteChangeDetected'' ''modified'' ''b''])
        5 (sc_env RequestException (\<lambda>k. True)) sc_args (sc_world Absent))"
proof -
  have 1: "fst (process_events [sc_event 7 ''RemoteChangeDetected'' ''modified'' ''a'']
        5 (sc_env RequestException (\<lambda>k. True)) sc_args (sc_world Absent)) = 7"
    unfolding process_events_fst by (simp add: sc_event_def)
  have 2: "fst (process_events ([sc_event 7 ''RemoteChangeDetected'' ''modified'' ''a''] @ [sc_event 9 ''RemoteChangeDetected'' ''modified'' ''b''])
        5 (sc_env RequestException (\<lambda>k. True)) sc_args (sc_world Absent)) = 9"
    unfolding process_events_fst by (simp add: sc_event_def)
  from cursor_strictly_increasing[of "[sc_event 7 ''RemoteChangeDetected'' ''modified'' ''a'']"
      "sc_event 9 ''RemoteChangeDetected'' ''modified'' ''b''" 5 "sc_env RequestException (\<lambda>k. True)"
      sc_args "sc_world Absent"]
  show ?thesis unfolding 1 2 by simp
qed

end
